theory Spec2Isabelle
  imports Complex_Main
begin

section \<open>Point positioning by damped Newton-Raphson (algorithms/snapshot.py)\<close>

text \<open>
  The module has two functions: the generic solver \<^verbatim>\<open>newton_raphson\<close> and the
  pseudorange model \<^verbatim>\<open>_solve_pos\<close> with its two closures \<^verbatim>\<open>f\<close> and \<^verbatim>\<open>df\<close>.

  Conventions of the embedding.
  \<^item> A numpy array of floats is a list of reals (\<open>vec\<close>), a 2-D array is the list of
    its rows (\<open>mat\<close>). Arithmetic is exact real arithmetic: rounding, infinities and
    not-a-number values of IEEE doubles are outside the model.
  \<^item> An exception of the source is a value \<open>Inl err\<close>; a loop that does not stop is
    the value \<open>None\<close>. So a call yields \<open>Some (Inr v)\<close> exactly when it returns \<open>v\<close>.
  \<^item> \<^verbatim>\<open>np.linalg.pinv\<close> is a library routine; it is an argument \<open>pinv\<close> of the
    model, as are the constant \<^verbatim>\<open>gpsconsts.C\<close> (module utils.constants) and the
    contents of the uninitialised buffer that \<^verbatim>\<open>np.empty(4)\<close> hands out.
  \<^item> Arguments with a default (\<open>e = 1e-3\<close>, \<open>lam = 1\<close>) are ordinary arguments: the
    caller passes the default.
\<close>

datatype error = ValueError | LinAlgError | IndexError

type_synonym vec = "real list"
type_synonym mat = "real list list"

definition ebind :: "error + 'a \<Rightarrow> ('a \<Rightarrow> error + 'b) \<Rightarrow> error + 'b" where
  "ebind m k = (case m of Inl err \<Rightarrow> Inl err | Inr v \<Rightarrow> k v)"

subsection \<open>The numpy operations the module uses\<close>

text \<open>
  An elementwise binary operation on two 1-D arrays: equal lengths combine pointwise,
  a length-1 operand is broadcast along the other, anything else raises ValueError.
\<close>

definition broadcast2 :: "(real \<Rightarrow> real \<Rightarrow> real) \<Rightarrow> vec \<Rightarrow> vec \<Rightarrow> error + vec" where
  "broadcast2 bop a b =
     (if length a = length b then Inr (map2 bop a b)
      else if length a = 1 then Inr (map (bop (hd a)) b)
      else if length b = 1 then Inr (map (\<lambda>u. bop u (hd b)) a)
      else Inl ValueError)"

text \<open>\<^verbatim>\<open>np.ones_like(x0)\<close> and \<^verbatim>\<open>np.sum(np.abs(delta_x))\<close>.\<close>

definition ones_like :: "vec \<Rightarrow> vec" where
  "ones_like x0 = replicate (length x0) 1"

definition sum_abs :: "vec \<Rightarrow> real" where
  "sum_abs delta_x = sum_list (map abs delta_x)"

text \<open>\<^verbatim>\<open>np.linalg.norm\<close> of a 1-D array: the square root of the sum of squares.\<close>

definition norm2 :: "vec \<Rightarrow> real" where
  "norm2 r = sqrt (sum_list (map (\<lambda>v. \<bar>v\<bar> ^ 2) r))"

text \<open>
  \<^verbatim>\<open>M @ v\<close> for a 2-D \<open>M\<close> and a 1-D \<open>v\<close>: every row must be as long as \<open>v\<close>,
  otherwise ValueError. (A matrix without rows has no column count in this
  representation; its product is the empty array.)
\<close>

definition matvec :: "mat \<Rightarrow> vec \<Rightarrow> error + vec" where
  "matvec m v =
     (if list_all (\<lambda>row. length row = length v) m
      then Inr (map (\<lambda>row. sum_list (map2 (*) row v)) m)
      else Inl ValueError)"

subsection \<open>newton\_raphson\<close>

text \<open>
  One pass through the loop body, from the current \<open>x0\<close>:
  \<^verbatim>\<open>delta_x = lam*(np.linalg.pinv(df(x0)) @ f(x0)); x0 = x0 - delta_x\<close>.
  Python evaluates \<open>df(x0)\<close>, then \<open>pinv\<close>, then \<open>f(x0)\<close>, then the product.
  The result is the new pair \<open>(x0, delta_x)\<close>. The products are products of reals;
  those of doubles agree with them up to rounding as long as nothing overflows
  (beyond the range, a double is \<open>inf\<close>, and \<open>0 * inf\<close> is \<open>nan\<close>, not 0).
\<close>

definition nr_step ::
  "(vec \<Rightarrow> error + vec) \<Rightarrow> (vec \<Rightarrow> error + mat) \<Rightarrow> (mat \<Rightarrow> error + mat) \<Rightarrow> real \<Rightarrow> vec
    \<Rightarrow> error + (vec \<times> vec)" where
  "nr_step f df pinv lam x0 =
     ebind (df x0) (\<lambda>J.
     ebind (pinv J) (\<lambda>P.
     ebind (f x0) (\<lambda>r.
     ebind (matvec P r) (\<lambda>v.
       let delta_x = map ((*) lam) v in
       ebind (broadcast2 (-) x0 delta_x) (\<lambda>x1. Inr (x1, delta_x))))))"

text \<open>
  The while loop on the two variables \<open>x0\<close> and \<open>delta_x\<close>. It has no bound on the
  number of passes, so it is a partial function: \<open>None\<close> is a loop that never stops.
\<close>

partial_function (option) newton_loop ::
  "(vec \<Rightarrow> error + vec) \<Rightarrow> (vec \<Rightarrow> error + mat) \<Rightarrow> (mat \<Rightarrow> error + mat) \<Rightarrow> real \<Rightarrow> real
    \<Rightarrow> vec \<Rightarrow> vec \<Rightarrow> (error + (vec \<times> vec)) option" where
  "newton_loop f df pinv e lam x0 delta_x =
     (if sum_abs delta_x > e
      then (case nr_step f df pinv lam x0 of
              Inl err \<Rightarrow> Some (Inl err)
            | Inr s \<Rightarrow> newton_loop f df pinv e lam (fst s) (snd s))
      else Some (Inr (x0, delta_x)))"

text \<open>The return statement: \<^verbatim>\<open>return x0, np.linalg.norm(f(x0))\<close>.\<close>

definition nr_return :: "(vec \<Rightarrow> error + vec) \<Rightarrow> vec \<Rightarrow> error + (vec \<times> real)" where
  "nr_return f x0 = ebind (f x0) (\<lambda>r. Inr (x0, norm2 r))"

text \<open>
  What the function yields, given how the loop ended: nothing if the loop never stops,
  the exception if a pass raised, otherwise the return statement on the last \<open>x0\<close>.
\<close>

definition nr_finish ::
  "(vec \<Rightarrow> error + vec) \<Rightarrow> (error + (vec \<times> vec)) option \<Rightarrow> (error + (vec \<times> real)) option" where
  "nr_finish f r =
     (case r of
        None \<Rightarrow> None
      | Some (Inl err) \<Rightarrow> Some (Inl err)
      | Some (Inr s) \<Rightarrow> Some (nr_return f (fst s)))"

text \<open>
  \<^verbatim>\<open>newton_raphson(f, df, x0, e, lam)\<close>: \<open>delta_x\<close> starts as an array of ones shaped
  like \<open>x0\<close>. The defaults \<open>e = 1e-3\<close> and \<open>lam = 1\<close> are the caller's business.
\<close>

definition newton_raphson ::
  "(vec \<Rightarrow> error + vec) \<Rightarrow> (vec \<Rightarrow> error + mat) \<Rightarrow> (mat \<Rightarrow> error + mat) \<Rightarrow> vec \<Rightarrow> real \<Rightarrow> real
    \<Rightarrow> (error + (vec \<times> real)) option" where
  "newton_raphson f df pinv x0 e lam =
     nr_finish f (newton_loop f df pinv e lam x0 (ones_like x0))"

subsection \<open>\_solve\_pos and its closures\<close>

text \<open>
  The range vector both closures compute first:
  \<^verbatim>\<open>tilde_prange = np.sqrt((x - X)**2 + (y - Y)**2 + (z - Z)**2)\<close>.
  A scalar minus an array is elementwise; the two sums of arrays broadcast.
\<close>

definition tilde_prange :: "vec \<Rightarrow> vec \<Rightarrow> vec \<Rightarrow> real \<Rightarrow> real \<Rightarrow> real \<Rightarrow> error + vec" where
  "tilde_prange X Y Z x y z =
     ebind (broadcast2 (+) (map (\<lambda>Xi. (x - Xi) ^ 2) X) (map (\<lambda>Yi. (y - Yi) ^ 2) Y)) (\<lambda>s.
     ebind (broadcast2 (+) s (map (\<lambda>Zi. (z - Zi) ^ 2) Z)) (\<lambda>s'.
     Inr (map sqrt s')))"

text \<open>
  \<^verbatim>\<open>delta_prange = prange - (tilde_prange + cdt - B)\<close>, computed by both closures.
\<close>

definition delta_prange :: "vec \<Rightarrow> vec \<Rightarrow> real \<Rightarrow> vec \<Rightarrow> error + vec" where
  "delta_prange prange B cdt tilde =
     ebind (broadcast2 (-) (map (\<lambda>t. t + cdt) tilde) B) (\<lambda>prange'.
     broadcast2 (-) prange prange')"

text \<open>
  The closure \<^verbatim>\<open>f\<close>. The unpacking \<^verbatim>\<open>x, y, z, cdt = list(vars)\<close> raises ValueError
  unless \<open>vars\<close> has exactly four entries.
\<close>

definition solve_pos_f :: "vec \<Rightarrow> vec \<Rightarrow> vec \<Rightarrow> vec \<Rightarrow> vec \<Rightarrow> vec \<Rightarrow> error + vec" where
  "solve_pos_f prange X Y Z B vars =
     (case vars of
        [x, y, z, cdt] \<Rightarrow>
          ebind (tilde_prange X Y Z x y z) (\<lambda>tilde.
          delta_prange prange B cdt tilde)
      | _ \<Rightarrow> Inl ValueError)"

text \<open>
  Storing a 1-D value into a column of an \<open>n\<close>-row array
  (\<^verbatim>\<open>derivatives[:, k] = value\<close>): the value has \<open>n\<close> entries, or one entry that is
  repeated; anything else raises ValueError.
\<close>

definition assign_column :: "nat \<Rightarrow> vec \<Rightarrow> error + vec" where
  "assign_column n v =
     (if length v = n then Inr v
      else if length v = 1 then Inr (replicate n (hd v))
      else Inl ValueError)"

text \<open>One of the first three columns: \<^verbatim>\<open>-(x - X)/tilde_prange\<close> stored into \<open>n\<close> rows.\<close>

definition df_column :: "nat \<Rightarrow> real \<Rightarrow> vec \<Rightarrow> vec \<Rightarrow> error + vec" where
  "df_column n x X tilde =
     ebind (broadcast2 (/) (map (\<lambda>Xi. - (x - Xi)) X) tilde) (assign_column n)"

text \<open>
  The closure \<^verbatim>\<open>df\<close>. It computes \<open>delta_prange\<close> too (and drops it), then fills a
  \<open>len(prange) \<times> 4\<close> array of zeros column by column; the last column is \<open>-1\<close>.
\<close>

definition solve_pos_df :: "vec \<Rightarrow> vec \<Rightarrow> vec \<Rightarrow> vec \<Rightarrow> vec \<Rightarrow> vec \<Rightarrow> error + mat" where
  "solve_pos_df prange X Y Z B vars =
     (case vars of
        [x, y, z, cdt] \<Rightarrow>
          ebind (tilde_prange X Y Z x y z) (\<lambda>tilde.
          ebind (delta_prange prange B cdt tilde) (\<lambda>unused.
          ebind (df_column (length prange) x X tilde) (\<lambda>c0.
          ebind (df_column (length prange) y Y tilde) (\<lambda>c1.
          ebind (df_column (length prange) z Z tilde) (\<lambda>c2.
          Inr (map (\<lambda>i. [c0 ! i, c1 ! i, c2 ! i, - 1]) [0..<length prange]))))))
      | _ \<Rightarrow> Inl ValueError)"

text \<open>
  \<^verbatim>\<open>x_fix[-1] = x_fix[-1]*1e6/gpsconsts.C\<close>: index \<open>-1\<close> is the last entry, and
  raises IndexError on an empty array.
\<close>

definition rescale_last :: "real \<Rightarrow> vec \<Rightarrow> error + vec" where
  "rescale_last C x_fix =
     (if x_fix = [] then Inl IndexError
      else Inr (x_fix[length x_fix - 1 := x_fix ! (length x_fix - 1) * 1000000 / C]))"

text \<open>
  \<^verbatim>\<open>np.empty(4)\<close> returns four entries that are not initialised: whatever the
  buffer held. The model takes those four values as the argument \<open>mem\<close>.
\<close>

fun np_empty4 :: "real \<times> real \<times> real \<times> real \<Rightarrow> vec" where
  "np_empty4 (a, b, c, d) = [a, b, c, d]"

text \<open>
  \<^verbatim>\<open>_solve_pos(prange, X, Y, Z, B, e)\<close>. The solver is called with the default
  damping \<open>lam = 1\<close>; the residual norm it returns is dropped.
\<close>

definition solve_pos ::
  "(mat \<Rightarrow> error + mat) \<Rightarrow> real \<Rightarrow> real \<times> real \<times> real \<times> real
    \<Rightarrow> vec \<Rightarrow> vec \<Rightarrow> vec \<Rightarrow> vec \<Rightarrow> vec \<Rightarrow> real \<Rightarrow> (error + vec) option" where
  "solve_pos pinv C mem prange X Y Z B e =
     (if length prange < 4 then Some (Inr (np_empty4 mem))
      else (case newton_raphson (solve_pos_f prange X Y Z B) (solve_pos_df prange X Y Z B)
                   pinv [100, 100, 100, 0] e 1 of
              None \<Rightarrow> None
            | Some (Inl err) \<Rightarrow> Some (Inl err)
            | Some (Inr r) \<Rightarrow> Some (rescale_last C (fst r))))"

subsection \<open>The range of doubles\<close>

text \<open>
  Finite doubles are below \<open>2^1024\<close> in size. When, for every row of \<open>P\<close>,
  the sizes of the terms of its product with \<open>r\<close> add up to less than
  \<open>2^1023\<close>, no term and no partial sum of \<^verbatim>\<open>P @ r\<close> overflows in
  doubles, in whatever order they are added: the computed product is finite. This
  is the condition under which the real product of \<open>nr_step\<close> stands for the
  double product of the source.
\<close>

definition product_in_double_range :: "mat \<Rightarrow> vec \<Rightarrow> bool" where
  "product_in_double_range P r =
     list_all (\<lambda>row. sum_list (map2 (\<lambda>a b. \<bar>a * b\<bar>) row r) < 2 ^ 1023) P"

text \<open>
  Likewise for \<^verbatim>\<open>np.linalg.norm(r)\<close>, the square root of the product of \<open>r\<close> with
  itself: it is finite in doubles when the squares add up to less than \<open>2^1023\<close>.
\<close>

definition norm_in_double_range :: "vec \<Rightarrow> bool" where
  "norm_in_double_range r = (sum_list (map (\<lambda>v. \<bar>v\<bar> ^ 2) r) < 2 ^ 1023)"

subsection \<open>Iterating the loop body\<close>

text \<open>
  \<open>nr_iter f df pinv lam k (x0, delta_x)\<close> is the pair of loop variables after \<open>k\<close>
  passes through the loop body, whatever the loop condition says; a pass that raises
  ends the run. The loop is described below as the first \<open>k\<close> at which the condition
  fails.
\<close>

fun nr_iter ::
  "(vec \<Rightarrow> error + vec) \<Rightarrow> (vec \<Rightarrow> error + mat) \<Rightarrow> (mat \<Rightarrow> error + mat) \<Rightarrow> real \<Rightarrow> nat
    \<Rightarrow> vec \<times> vec \<Rightarrow> error + (vec \<times> vec)" where
  "nr_iter f df pinv lam 0 s = Inr s"
| "nr_iter f df pinv lam (Suc k) s =
     ebind (nr_step f df pinv lam (fst s)) (nr_iter f df pinv lam k)"

subsection \<open>Sample inputs\<close>

text \<open>
  The examples below run the code on these inputs.

  \<open>pinv_fail\<close> is a pseudo-inverse routine that raises on every call (numpy raises
  LinAlgError when the singular value decomposition does not converge); a run that
  returns with it has not called the routine.
\<close>

definition pinv_fail :: "mat \<Rightarrow> error + mat" where
  "pinv_fail J = Inl LinAlgError"

text \<open>
  \<open>pinv_row\<close> is the Moore-Penrose pseudo-inverse on \<open>1 \<times> 4\<close> matrices: the
  transposed row divided by its squared length (and zero for the zero row).
\<close>

definition pinv_row :: "mat \<Rightarrow> error + mat" where
  "pinv_row J =
     (case J of
        [[a, b, c, d]] \<Rightarrow>
          Inr [[a / (a ^ 2 + b ^ 2 + c ^ 2 + d ^ 2)], [b / (a ^ 2 + b ^ 2 + c ^ 2 + d ^ 2)],
               [c / (a ^ 2 + b ^ 2 + c ^ 2 + d ^ 2)], [d / (a ^ 2 + b ^ 2 + c ^ 2 + d ^ 2)]]
      | _ \<Rightarrow> Inl LinAlgError)"

text \<open>
  \<open>pinv_sample\<close> is the pseudo-inverse on the one \<open>4 \<times> 4\<close> matrix the satellite
  example needs (there it is the inverse), and raises elsewhere. The example has four
  satellites at distance 1 from the point \<open>(100, 100, 100)\<close>, at
  \<open>(101, 100, 100)\<close>, \<open>(100, 101, 100)\<close>, \<open>(100, 100, 101)\<close> and \<open>(99, 100, 100)\<close>,
  pseudoranges \<open>3/2\<close> and corrections \<open>0\<close>: the receiver is at \<open>(100, 100, 100)\<close>
  with a clock bias of \<open>1/2\<close> metre.
\<close>

definition pinv_sample :: "mat \<Rightarrow> error + mat" where
  "pinv_sample J =
     (if J = [[1, 0, 0, - 1], [0, 1, 0, - 1], [0, 0, 1, - 1], [- 1, 0, 0, - 1]]
      then Inr [[1 / 2, 0, 0, - 1 / 2], [- 1 / 2, 1, 0, - 1 / 2],
                [- 1 / 2, 0, 1, - 1 / 2], [- 1 / 2, 0, 0, - 1 / 2]]
      else Inl LinAlgError)"

text \<open>
  \<open>cyc_f\<close> and \<open>cyc_df\<close> are the residual \<open>a\<^sup>3 - 2a + 2\<close> of the first state
  component and its Jacobian; Newton's method from \<open>a = 0\<close> alternates between 0 and 1.
\<close>

definition cyc_f :: "vec \<Rightarrow> error + vec" where
  "cyc_f vars = (case vars of [] \<Rightarrow> Inl IndexError | a # _ \<Rightarrow> Inr [a ^ 3 - 2 * a + 2])"

definition cyc_df :: "vec \<Rightarrow> error + mat" where
  "cyc_df vars = (case vars of [] \<Rightarrow> Inl IndexError | a # _ \<Rightarrow> Inr [[3 * a ^ 2 - 2, 0, 0, 0]])"

section \<open>Basic facts about the operations\<close>

lemma ebind_Inl: "ebind (Inl err) k = Inl err"
  by (simp add: ebind_def)

lemma ebind_Inr: "ebind (Inr v) k = k v"
  by (simp add: ebind_def)

lemma ebind_eq_Inr:
  "ebind m k = Inr w \<longleftrightarrow> (\<exists>v. m = Inr v \<and> k v = Inr w)"
  by (cases m) (simp_all add: ebind_def)

lemma broadcast2_same:
  "length a = length b \<Longrightarrow> broadcast2 bop a b = Inr (map2 bop a b)"
  by (simp add: broadcast2_def)

lemma broadcast2_length:
  "broadcast2 bop a b = Inr c \<Longrightarrow> length a \<noteq> 1 \<Longrightarrow> length c = length a"
  by (auto simp: broadcast2_def split: if_splits)

lemma nr_step_length:
  assumes "nr_step f df pinv lam x = Inr (x', d)" and "length x \<noteq> 1"
  shows "length x' = length x"
  using assms
  by (auto simp: nr_step_def ebind_eq_Inr Let_def dest: broadcast2_length)

lemma newton_loop_stop:
  "\<not> e < sum_abs d \<Longrightarrow> newton_loop f df pinv e lam x d = Some (Inr (x, d))"
  by (subst newton_loop.simps) simp

lemma newton_loop_step:
  "e < sum_abs d \<Longrightarrow> nr_step f df pinv lam x = Inr (x', d')
    \<Longrightarrow> newton_loop f df pinv e lam x d = newton_loop f df pinv e lam x' d'"
  by (subst newton_loop.simps) simp

lemma newton_loop_raise:
  "e < sum_abs d \<Longrightarrow> nr_step f df pinv lam x = Inl err
    \<Longrightarrow> newton_loop f df pinv e lam x d = Some (Inl err)"
  by (subst newton_loop.simps) simp

lemma newton_loop_length_aux:
  assumes "newton_loop f df pinv e lam x d = Some y"
  shows "length x \<noteq> 1 \<longrightarrow> (\<forall>s. y = Inr s \<longrightarrow> length (fst s) = length x)"
proof (rule newton_loop.raw_induct
    [where P = "\<lambda>f df pinv e lam x d y.
                  length x \<noteq> 1 \<longrightarrow> (\<forall>s. y = Inr s \<longrightarrow> length (fst s) = length x)",
     OF _ assms])
  fix loop :: "(vec \<Rightarrow> error + vec) \<Rightarrow> (vec \<Rightarrow> error + mat) \<Rightarrow> (mat \<Rightarrow> error + mat) \<Rightarrow> real \<Rightarrow> real
    \<Rightarrow> vec \<Rightarrow> vec \<Rightarrow> (error + (vec \<times> vec)) option"
  fix f df pinv e lam x d y
  assume ih: "\<And>f df pinv e lam x d y. loop f df pinv e lam x d = Some y \<Longrightarrow>
      length x \<noteq> 1 \<longrightarrow> (\<forall>s. y = Inr s \<longrightarrow> length (fst s) = length x)"
  assume body: "(if e < sum_abs d
      then case nr_step f df pinv lam x of Inl err \<Rightarrow> Some (Inl err)
           | Inr s \<Rightarrow> loop f df pinv e lam (fst s) (snd s)
      else Some (Inr (x, d))) = Some y"
  show "length x \<noteq> 1 \<longrightarrow> (\<forall>s. y = Inr s \<longrightarrow> length (fst s) = length x)"
  proof (cases "e < sum_abs d")
    case False
    with body have "y = Inr (x, d)" by simp
    then show ?thesis by simp
  next
    case True
    show ?thesis
    proof (cases "nr_step f df pinv lam x")
      case (Inl err)
      with True body have "y = Inl err" by simp
      then show ?thesis by simp
    next
      case (Inr s)
      with True body have "loop f df pinv e lam (fst s) (snd s) = Some y" by simp
      from ih[OF this] have rec:
        "length (fst s) \<noteq> 1 \<longrightarrow> (\<forall>s'. y = Inr s' \<longrightarrow> length (fst s') = length (fst s))" .
      from Inr have "nr_step f df pinv lam x = Inr (fst s, snd s)" by simp
      then have keep: "length x \<noteq> 1 \<Longrightarrow> length (fst s) = length x"
        by (rule nr_step_length)
      show ?thesis
      proof (intro impI allI)
        fix s'
        assume ne: "length x \<noteq> 1" and y: "y = Inr s'"
        from keep[OF ne] ne have "length (fst s) \<noteq> 1" by simp
        with rec y have "length (fst s') = length (fst s)" by blast
        with keep[OF ne] show "length (fst s') = length x" by simp
      qed
    qed
  qed
qed

lemma newton_loop_length:
  assumes "newton_loop f df pinv e lam x d = Some (Inr (x', d'))" and "length x \<noteq> 1"
  shows "length x' = length x"
  using newton_loop_length_aux[OF assms(1)] assms(2) by simp

lemma sum_abs_ones_like: "sum_abs (ones_like x0) = real (length x0)"
  by (simp add: sum_abs_def ones_like_def sum_list_replicate)

lemma nr_finish_None: "nr_finish f None = None"
  by (simp add: nr_finish_def)

lemma nr_finish_raise: "nr_finish f (Some (Inl err)) = Some (Inl err)"
  by (simp add: nr_finish_def)

lemma nr_finish_return: "nr_finish f (Some (Inr (x, d))) = Some (nr_return f x)"
  by (simp add: nr_finish_def)

lemma nr_finish_Inr:
  "nr_finish f r = Some (Inr (xs, res)) \<Longrightarrow> \<exists>d. r = Some (Inr (xs, d))"
  by (auto simp: nr_finish_def nr_return_def ebind_eq_Inr split: option.splits sum.splits)

lemma newton_raphson_length:
  assumes "newton_raphson f df pinv x0 e lam = Some (Inr (xs, res))" and "length x0 \<noteq> 1"
  shows "length xs = length x0"
proof -
  from assms(1) obtain d where "newton_loop f df pinv e lam x0 (ones_like x0) = Some (Inr (xs, d))"
    unfolding newton_raphson_def by (blast dest: nr_finish_Inr)
  then show ?thesis using assms(2) by (rule newton_loop_length)
qed

lemma length4E:
  assumes "length xs = 4"
  obtains a b c d where "xs = [a, b, c, d]"
  using assms by (auto simp: length_Suc_conv numeral_eq_Suc)

lemma rescale_last4: "rescale_last C [a, b, c, d] = Inr [a, b, c, d * 1000000 / C]"
  by (simp add: rescale_last_def)

lemma tilde_prange_same:
  assumes "length Y = length X" and "length Z = length X"
  shows "tilde_prange X Y Z x y z =
           Inr (map (\<lambda>i. sqrt ((x - X ! i) ^ 2 + (y - Y ! i) ^ 2 + (z - Z ! i) ^ 2))
                  [0..<length X])"
proof -
  have "map2 (+) (map2 (+) (map (\<lambda>Xi. (x - Xi) ^ 2) X) (map (\<lambda>Yi. (y - Yi) ^ 2) Y))
          (map (\<lambda>Zi. (z - Zi) ^ 2) Z)
        = map (\<lambda>i. (x - X ! i) ^ 2 + (y - Y ! i) ^ 2 + (z - Z ! i) ^ 2) [0..<length X]"
    using assms by (intro nth_equalityI) simp_all
  then show ?thesis
    using assms by (simp add: tilde_prange_def broadcast2_same ebind_Inr)
qed

lemma delta_prange_same:
  assumes "length tilde = length prange" and "length B = length prange"
  shows "delta_prange prange B cdt tilde =
           Inr (map (\<lambda>i. prange ! i - (tilde ! i + cdt - B ! i)) [0..<length prange])"
proof -
  have "map2 (-) prange (map2 (-) (map (\<lambda>t. t + cdt) tilde) B)
        = map (\<lambda>i. prange ! i - (tilde ! i + cdt - B ! i)) [0..<length prange]"
    using assms by (intro nth_equalityI) simp_all
  then show ?thesis
    using assms by (simp add: delta_prange_def broadcast2_same ebind_Inr)
qed

lemma df_column_same:
  assumes "length X = n" and "length tilde = n"
  shows "df_column n x X tilde = Inr (map (\<lambda>i. - (x - X ! i) / tilde ! i) [0..<n])"
proof -
  have "map2 (/) (map (\<lambda>Xi. - (x - Xi)) X) tilde = map (\<lambda>i. - (x - X ! i) / tilde ! i) [0..<n]"
    using assms by (intro nth_equalityI) simp_all
  then show ?thesis
    using assms by (simp add: df_column_def broadcast2_same ebind_Inr assign_column_def)
qed

lemma newton_loop_diverges:
  assumes inv: "\<And>x d. I x d \<Longrightarrow>
                  e < sum_abs d \<and> (\<exists>s. nr_step f df pinv lam x = Inr s \<and> I (fst s) (snd s))"
    and start: "I x d"
  shows "newton_loop f df pinv e lam x d = None"
proof (rule ccontr)
  assume "newton_loop f df pinv e lam x d \<noteq> None"
  then obtain y where y: "newton_loop f df pinv e lam x d = Some y" by blast
  have "\<not> (f' = f \<and> df' = df \<and> pinv' = pinv \<and> e' = e \<and> lam' = lam \<and> I x d)"
    if "newton_loop f' df' pinv' e' lam' x d = Some y" for f' df' pinv' e' lam' x d y
  proof (rule newton_loop.raw_induct
      [where P = "\<lambda>f' df' pinv' e' lam' x d y.
                    \<not> (f' = f \<and> df' = df \<and> pinv' = pinv \<and> e' = e \<and> lam' = lam \<and> I x d)",
       OF _ that])
    fix loop :: "(vec \<Rightarrow> error + vec) \<Rightarrow> (vec \<Rightarrow> error + mat) \<Rightarrow> (mat \<Rightarrow> error + mat) \<Rightarrow> real
      \<Rightarrow> real \<Rightarrow> vec \<Rightarrow> vec \<Rightarrow> (error + (vec \<times> vec)) option"
    fix f' df' pinv' e' lam' x d y
    assume ih: "\<And>f' df' pinv' e' lam' x d y. loop f' df' pinv' e' lam' x d = Some y \<Longrightarrow>
        \<not> (f' = f \<and> df' = df \<and> pinv' = pinv \<and> e' = e \<and> lam' = lam \<and> I x d)"
    assume body: "(if e' < sum_abs d
        then case nr_step f' df' pinv' lam' x of Inl err \<Rightarrow> Some (Inl err)
             | Inr s \<Rightarrow> loop f' df' pinv' e' lam' (fst s) (snd s)
        else Some (Inr (x, d))) = Some y"
    show "\<not> (f' = f \<and> df' = df \<and> pinv' = pinv \<and> e' = e \<and> lam' = lam \<and> I x d)"
    proof
      assume a: "f' = f \<and> df' = df \<and> pinv' = pinv \<and> e' = e \<and> lam' = lam \<and> I x d"
      with inv obtain s where gt: "e < sum_abs d" and s: "nr_step f df pinv lam x = Inr s"
        and I': "I (fst s) (snd s)" by blast
      from body a gt s have "loop f df pinv e lam (fst s) (snd s) = Some y" by simp
      from ih[OF this] I' show False by simp
    qed
  qed
  from this[OF y] start show False by simp
qed

lemma nr_iter_Suc_Inr:
  "nr_iter f df pinv lam (Suc k) (x, d) = Inr t \<longleftrightarrow>
     (\<exists>s. nr_step f df pinv lam x = Inr s \<and> nr_iter f df pinv lam k s = Inr t)"
  by (simp add: ebind_eq_Inr)

lemma newton_loop_from_iter:
  assumes "nr_iter f df pinv lam k (x, d) = Inr (xk, dk)"
    and "sum_abs dk \<le> e"
    and "\<forall>j<k. \<forall>s. nr_iter f df pinv lam j (x, d) = Inr s \<longrightarrow> e < sum_abs (snd s)"
  shows "newton_loop f df pinv e lam x d = Some (Inr (xk, dk))"
  using assms
proof (induction k arbitrary: x d)
  case 0
  then show ?case by (simp add: newton_loop_stop)
next
  case (Suc k)
  from Suc.prems(1) obtain s where s: "nr_step f df pinv lam x = Inr s"
    and rest: "nr_iter f df pinv lam k s = Inr (xk, dk)"
    unfolding nr_iter_Suc_Inr by blast
  from Suc.prems(3) have "e < sum_abs (snd (x, d))"
    by (metis nr_iter.simps(1) zero_less_Suc)
  then have gt: "e < sum_abs d" by simp
  have later: "\<forall>j<k. \<forall>t. nr_iter f df pinv lam j (fst s, snd s) = Inr t \<longrightarrow> e < sum_abs (snd t)"
  proof (intro allI impI)
    fix j t
    assume "j < k" and "nr_iter f df pinv lam j (fst s, snd s) = Inr t"
    with s have "Suc j < Suc k" and "nr_iter f df pinv lam (Suc j) (x, d) = Inr t"
      by (simp_all add: ebind_Inr)
    with Suc.prems(3) show "e < sum_abs (snd t)" by blast
  qed
  from rest have "nr_iter f df pinv lam k (fst s, snd s) = Inr (xk, dk)" by simp
  from Suc.IH[OF this Suc.prems(2) later]
  have "newton_loop f df pinv e lam (fst s) (snd s) = Some (Inr (xk, dk))" .
  moreover from s have "nr_step f df pinv lam x = Inr (fst s, snd s)" by simp
  from newton_loop_step[OF gt this]
  have "newton_loop f df pinv e lam x d = newton_loop f df pinv e lam (fst s) (snd s)" .
  ultimately show ?case by simp
qed

lemma newton_loop_to_iter_aux:
  assumes "newton_loop f df pinv e lam x d = Some y"
  shows "\<forall>xk dk. y = Inr (xk, dk) \<longrightarrow>
           (\<exists>k. nr_iter f df pinv lam k (x, d) = Inr (xk, dk) \<and> sum_abs dk \<le> e
              \<and> (\<forall>j<k. \<forall>s. nr_iter f df pinv lam j (x, d) = Inr s \<longrightarrow> e < sum_abs (snd s)))"
proof (rule newton_loop.raw_induct
    [where P = "\<lambda>f df pinv e lam x d y. \<forall>xk dk. y = Inr (xk, dk) \<longrightarrow>
           (\<exists>k. nr_iter f df pinv lam k (x, d) = Inr (xk, dk) \<and> sum_abs dk \<le> e
              \<and> (\<forall>j<k. \<forall>s. nr_iter f df pinv lam j (x, d) = Inr s \<longrightarrow> e < sum_abs (snd s)))",
     OF _ assms])
  fix loop :: "(vec \<Rightarrow> error + vec) \<Rightarrow> (vec \<Rightarrow> error + mat) \<Rightarrow> (mat \<Rightarrow> error + mat) \<Rightarrow> real
    \<Rightarrow> real \<Rightarrow> vec \<Rightarrow> vec \<Rightarrow> (error + (vec \<times> vec)) option"
  fix f df pinv e lam x d y
  assume ih: "\<And>f df pinv e lam x d y. loop f df pinv e lam x d = Some y \<Longrightarrow>
      \<forall>xk dk. y = Inr (xk, dk) \<longrightarrow>
           (\<exists>k. nr_iter f df pinv lam k (x, d) = Inr (xk, dk) \<and> sum_abs dk \<le> e
              \<and> (\<forall>j<k. \<forall>s. nr_iter f df pinv lam j (x, d) = Inr s \<longrightarrow> e < sum_abs (snd s)))"
  assume body: "(if e < sum_abs d
      then case nr_step f df pinv lam x of Inl err \<Rightarrow> Some (Inl err)
           | Inr s \<Rightarrow> loop f df pinv e lam (fst s) (snd s)
      else Some (Inr (x, d))) = Some y"
  show "\<forall>xk dk. y = Inr (xk, dk) \<longrightarrow>
           (\<exists>k. nr_iter f df pinv lam k (x, d) = Inr (xk, dk) \<and> sum_abs dk \<le> e
              \<and> (\<forall>j<k. \<forall>s. nr_iter f df pinv lam j (x, d) = Inr s \<longrightarrow> e < sum_abs (snd s)))"
  proof (intro allI impI)
    fix xk dk
    assume y: "y = Inr (xk, dk)"
    show "\<exists>k. nr_iter f df pinv lam k (x, d) = Inr (xk, dk) \<and> sum_abs dk \<le> e
              \<and> (\<forall>j<k. \<forall>s. nr_iter f df pinv lam j (x, d) = Inr s \<longrightarrow> e < sum_abs (snd s))"
    proof (cases "e < sum_abs d")
      case False
      with body y have "xk = x" and "dk = d" by simp_all
      with False have "nr_iter f df pinv lam 0 (x, d) = Inr (xk, dk) \<and> sum_abs dk \<le> e
              \<and> (\<forall>j<0. \<forall>s. nr_iter f df pinv lam j (x, d) = Inr s \<longrightarrow> e < sum_abs (snd s))"
        by simp
      then show ?thesis by (rule exI)
    next
      case True
      show ?thesis
      proof (cases "nr_step f df pinv lam x")
        case (Inl err)
        with True body y show ?thesis by simp
      next
        case (Inr s)
        with True body have "loop f df pinv e lam (fst s) (snd s) = Some y" by simp
        from ih[OF this] y obtain k where
          k: "nr_iter f df pinv lam k (fst s, snd s) = Inr (xk, dk)" and stop: "sum_abs dk \<le> e"
          and before: "\<forall>j<k. \<forall>t. nr_iter f df pinv lam j (fst s, snd s) = Inr t \<longrightarrow> e < sum_abs (snd t)"
          by blast
        from Inr k have 1: "nr_iter f df pinv lam (Suc k) (x, d) = Inr (xk, dk)"
          by (simp add: ebind_Inr)
        have 2: "\<forall>j<Suc k. \<forall>t. nr_iter f df pinv lam j (x, d) = Inr t \<longrightarrow> e < sum_abs (snd t)"
        proof (intro allI impI)
          fix j t
          assume j: "j < Suc k" and t: "nr_iter f df pinv lam j (x, d) = Inr t"
          show "e < sum_abs (snd t)"
          proof (cases j)
            case 0
            with t True show ?thesis by auto
          next
            case (Suc i)
            with t Inr have "nr_iter f df pinv lam i (fst s, snd s) = Inr t"
              by (simp add: ebind_Inr)
            moreover from Suc j have "i < k" by simp
            ultimately show ?thesis using before by blast
          qed
        qed
        from 1 stop 2 show ?thesis by blast
      qed
    qed
  qed
qed

lemma zero_step:
  assumes "df x0 = Inr J" and "pinv J = Inr P" and "f x0 = Inr r" and "matvec P r = Inr v"
    and "length v = length x0 \<or> length v = 1"
  shows "nr_step f df pinv 0 x0 = Inr (x0, replicate (length v) 0)"
proof -
  have d: "map ((*) 0) v = replicate (length v) (0 :: real)"
    by (intro nth_equalityI) simp_all
  have "broadcast2 (-) x0 (replicate (length v) (0 :: real)) = Inr x0"
  proof (cases "length v = length x0")
    case True
    have "map2 (-) x0 (replicate (length x0) (0 :: real)) = x0"
      by (intro nth_equalityI) simp_all
    with True show ?thesis by (simp add: broadcast2_def)
  next
    case False
    with assms(5) have one: "length v = 1" and ne: "length x0 \<noteq> 1" by auto
    then have "broadcast2 (-) x0 (replicate (length v) (0 :: real))
               = Inr (map (\<lambda>u. u - hd (replicate (length v) (0 :: real))) x0)"
      by (simp add: broadcast2_def)
    with one show ?thesis by simp
  qed
  with assms(1-4) d show ?thesis
    by (simp add: nr_step_def ebind_Inr)
qed

lemma sum_abs_zeros: "sum_abs (replicate n 0) = 0"
  by (simp add: sum_abs_def sum_list_replicate)

lemma cyc_step0: "nr_step cyc_f cyc_df pinv_row 1 [0, 0, 0, 0] = Inr ([1, 0, 0, 0], [- 1, 0, 0, 0])"
  by (simp add: nr_step_def cyc_f_def cyc_df_def pinv_row_def ebind_def matvec_def broadcast2_def)

lemma cyc_step1: "nr_step cyc_f cyc_df pinv_row 1 [1, 0, 0, 0] = Inr ([0, 0, 0, 0], [1, 0, 0, 0])"
  by (simp add: nr_step_def cyc_f_def cyc_df_def pinv_row_def ebind_def matvec_def broadcast2_def)

lemma demo_f_start:
  "solve_pos_f [3 / 2, 3 / 2, 3 / 2, 3 / 2] [101, 100, 100, 99] [100, 101, 100, 100]
     [100, 100, 101, 100] [0, 0, 0, 0] [100, 100, 100, 0] = Inr [1 / 2, 1 / 2, 1 / 2, 1 / 2]"
  by (simp add: solve_pos_f_def tilde_prange_def delta_prange_def broadcast2_def ebind_def)

lemma demo_f_fix:
  "solve_pos_f [3 / 2, 3 / 2, 3 / 2, 3 / 2] [101, 100, 100, 99] [100, 101, 100, 100]
     [100, 100, 101, 100] [0, 0, 0, 0] [100, 100, 100, 1 / 2] = Inr [0, 0, 0, 0]"
  by (simp add: solve_pos_f_def tilde_prange_def delta_prange_def broadcast2_def ebind_def)

lemma demo_df_start:
  "solve_pos_df [3 / 2, 3 / 2, 3 / 2, 3 / 2] [101, 100, 100, 99] [100, 101, 100, 100]
     [100, 100, 101, 100] [0, 0, 0, 0] [100, 100, 100, 0]
   = Inr [[1, 0, 0, - 1], [0, 1, 0, - 1], [0, 0, 1, - 1], [- 1, 0, 0, - 1]]"
  by (simp add: solve_pos_df_def df_column_def assign_column_def tilde_prange_def
      delta_prange_def broadcast2_def ebind_def upt_conv_Cons)

lemma demo_step:
  "nr_step (solve_pos_f [3 / 2, 3 / 2, 3 / 2, 3 / 2] [101, 100, 100, 99] [100, 101, 100, 100]
              [100, 100, 101, 100] [0, 0, 0, 0])
           (solve_pos_df [3 / 2, 3 / 2, 3 / 2, 3 / 2] [101, 100, 100, 99] [100, 101, 100, 100]
              [100, 100, 101, 100] [0, 0, 0, 0])
           pinv_sample 1 [100, 100, 100, 0]
   = Inr ([100, 100, 100, 1 / 2], [0, 0, 0, - 1 / 2])"
  by (simp add: nr_step_def demo_df_start demo_f_start pinv_sample_def ebind_Inr matvec_def
      broadcast2_def)

lemma demo_step_undamped:
  "nr_step (solve_pos_f [3 / 2, 3 / 2, 3 / 2, 3 / 2] [101, 100, 100, 99] [100, 101, 100, 100]
              [100, 100, 101, 100] [0, 0, 0, 0])
           (solve_pos_df [3 / 2, 3 / 2, 3 / 2, 3 / 2] [101, 100, 100, 99] [100, 101, 100, 100]
              [100, 100, 101, 100] [0, 0, 0, 0])
           pinv_sample 0 [100, 100, 100, 0]
   = Inr ([100, 100, 100, 0], [0, 0, 0, 0])"
  by (simp add: nr_step_def demo_df_start demo_f_start pinv_sample_def ebind_Inr matvec_def
      broadcast2_def)

lemma norm2_zeros4: "norm2 [0, 0, 0, 0] = 0"
  by (simp add: norm2_def)

lemma norm2_halves4: "norm2 [1 / 2, 1 / 2, 1 / 2, 1 / 2] = 1"
  by (simp add: norm2_def power2_eq_square)

lemma demo_newton_raphson:
  "newton_raphson
     (solve_pos_f [3 / 2, 3 / 2, 3 / 2, 3 / 2] [101, 100, 100, 99] [100, 101, 100, 100]
        [100, 100, 101, 100] [0, 0, 0, 0])
     (solve_pos_df [3 / 2, 3 / 2, 3 / 2, 3 / 2] [101, 100, 100, 99] [100, 101, 100, 100]
        [100, 100, 101, 100] [0, 0, 0, 0])
     pinv_sample [100, 100, 100, 0] 1 1
   = Some (Inr ([100, 100, 100, 1 / 2], 0))"
proof -
  let ?f = "solve_pos_f [3 / 2, 3 / 2, 3 / 2, 3 / 2] [101, 100, 100, 99] [100, 101, 100, 100]
        [100, 100, 101, 100] [0, 0, 0, 0]"
  let ?df = "solve_pos_df [3 / 2, 3 / 2, 3 / 2, 3 / 2] [101, 100, 100, 99] [100, 101, 100, 100]
        [100, 100, 101, 100] [0, 0, 0, 0]"
  have "newton_loop ?f ?df pinv_sample 1 1 [100, 100, 100, 0] (ones_like [100, 100, 100, 0])
        = newton_loop ?f ?df pinv_sample 1 1 [100, 100, 100, 1 / 2] [0, 0, 0, - 1 / 2]"
    by (rule newton_loop_step) (simp_all add: sum_abs_ones_like demo_step)
  also have "\<dots> = Some (Inr ([100, 100, 100, 1 / 2], [0, 0, 0, - 1 / 2]))"
    by (rule newton_loop_stop) (simp add: sum_abs_def)
  finally show ?thesis
    by (simp add: newton_raphson_def nr_finish_return nr_return_def demo_f_fix ebind_Inr
        norm2_zeros4)
qed

lemma demo_solve_pos:
  "solve_pos pinv_sample 299792458 mem [3 / 2, 3 / 2, 3 / 2, 3 / 2] [101, 100, 100, 99]
     [100, 101, 100, 100] [100, 100, 101, 100] [0, 0, 0, 0] 1
   = Some (Inr [100, 100, 100, (1 / 2) * 1000000 / 299792458])"
  by (simp add: solve_pos_def demo_newton_raphson rescale_last4)

lemma zero_damping_negative_tolerance:
  "newton_raphson
     (solve_pos_f [3 / 2, 3 / 2, 3 / 2, 3 / 2] [101, 100, 100, 99] [100, 101, 100, 100]
        [100, 100, 101, 100] [0, 0, 0, 0])
     (solve_pos_df [3 / 2, 3 / 2, 3 / 2, 3 / 2] [101, 100, 100, 99] [100, 101, 100, 100]
        [100, 100, 101, 100] [0, 0, 0, 0])
     pinv_sample [100, 100, 100, 0] (- 1) 0
   = None"
proof -
  define I :: "vec \<Rightarrow> vec \<Rightarrow> bool" where
    "I x d \<longleftrightarrow> x = [100, 100, 100, 0] \<and> (d = [1, 1, 1, 1] \<or> d = [0, 0, 0, 0])" for x d
  let ?f = "solve_pos_f [3 / 2, 3 / 2, 3 / 2, 3 / 2] [101, 100, 100, 99] [100, 101, 100, 100]
        [100, 100, 101, 100] [0, 0, 0, 0]"
  let ?df = "solve_pos_df [3 / 2, 3 / 2, 3 / 2, 3 / 2] [101, 100, 100, 99] [100, 101, 100, 100]
        [100, 100, 101, 100] [0, 0, 0, 0]"
  have "newton_loop ?f ?df pinv_sample (- 1) 0 [100, 100, 100, 0] (ones_like [100, 100, 100, 0])
        = None"
  proof (rule newton_loop_diverges[where I = I])
    show "I [100, 100, 100, 0] (ones_like [100, 100, 100, 0])"
      by (simp add: I_def ones_like_def numeral_eq_Suc)
  next
    fix x d
    assume "I x d"
    then have x: "x = [100, 100, 100, 0]" and d: "d = [1, 1, 1, 1] \<or> d = [0, 0, 0, 0]"
      by (simp_all add: I_def)
    from d have "- 1 < sum_abs d" by (auto simp: sum_abs_def)
    moreover from x have "\<exists>s. nr_step ?f ?df pinv_sample 0 x = Inr s \<and> I (fst s) (snd s)"
      by (simp add: demo_step_undamped I_def)
    ultimately show "- 1 < sum_abs d
        \<and> (\<exists>s. nr_step ?f ?df pinv_sample 0 x = Inr s \<and> I (fst s) (snd s))" by simp
  qed
  then show ?thesis by (simp add: newton_raphson_def nr_finish_None)
qed

lemma zero_damping_product_raises:
  "newton_raphson cyc_f
     (solve_pos_df [3 / 2, 3 / 2, 3 / 2, 3 / 2] [101, 100, 100, 99] [100, 101, 100, 100]
        [100, 100, 101, 100] [0, 0, 0, 0])
     pinv_sample [100, 100, 100, 0] (1 / 1000) 0
   = Some (Inl ValueError)"
proof -
  let ?df = "solve_pos_df [3 / 2, 3 / 2, 3 / 2, 3 / 2] [101, 100, 100, 99] [100, 101, 100, 100]
        [100, 100, 101, 100] [0, 0, 0, 0]"
  have "nr_step cyc_f ?df pinv_sample 0 [100, 100, 100, 0] = Inl ValueError"
    by (simp add: nr_step_def demo_df_start pinv_sample_def cyc_f_def ebind_def matvec_def)
  then have "newton_loop cyc_f ?df pinv_sample (1 / 1000) 0 [100, 100, 100, 0]
               (ones_like [100, 100, 100, 0]) = Some (Inl ValueError)"
    by (intro newton_loop_raise) (simp_all add: sum_abs_ones_like)
  then show ?thesis by (simp add: newton_raphson_def nr_finish_raise)
qed

lemma cyc_step_short:
  "nr_step cyc_f cyc_df pinv_row 0 [0] = Inr ([0, 0, 0, 0], [0, 0, 0, 0])"
  by (simp add: nr_step_def cyc_f_def cyc_df_def pinv_row_def ebind_def matvec_def broadcast2_def
      Let_def)

lemma zero_damping_state_reshaped:
  "newton_raphson cyc_f cyc_df pinv_row [0] (1 / 1000) 0 = Some (Inr ([0, 0, 0, 0], 2))"
proof -
  have "newton_loop cyc_f cyc_df pinv_row (1 / 1000) 0 [0] (ones_like [0])
        = newton_loop cyc_f cyc_df pinv_row (1 / 1000) 0 [0, 0, 0, 0] [0, 0, 0, 0]"
    by (rule newton_loop_step) (simp_all add: sum_abs_ones_like cyc_step_short)
  also have "\<dots> = Some (Inr ([0, 0, 0, 0], [0, 0, 0, 0]))"
    by (rule newton_loop_stop) (simp add: sum_abs_def)
  finally show ?thesis
    by (simp add: newton_raphson_def nr_finish_return nr_return_def cyc_f_def ebind_Inr norm2_def
        real_sqrt_abs2 power2_eq_square)
qed

text \<open>
  An overflow of the source that the range condition excludes: the residual
  \<open>10^200\<close> with the Jacobian row \<open>(10^-200, 0, 0, 0)\<close>. The
  pseudo-inverse has the entry \<open>10^200\<close>, the product is \<open>10^400\<close>: in
  doubles it is \<open>inf\<close>, and the step \<open>0 * inf\<close> is \<open>nan\<close>.
\<close>

lemma overflow_outside_range:
  "pinv_row [[1 / 10 ^ 200, 0, 0, 0]] = Inr [[10 ^ 200], [0], [0], [0]]
   \<and> \<not> product_in_double_range [[10 ^ 200], [0], [0], [0]] [10 ^ 200]"
  by (simp add: pinv_row_def product_in_double_range_def power2_eq_square)

section \<open>The claims\<close>

subsection \<open>C1: fewer than four satellites\<close>

text \<open>
  C1. The claim: for \<open>len(prange) < 4\<close>, \<^verbatim>\<open>_solve_pos\<close> returns a defined
  "unsolvable" sentinel, never enters the Newton-Raphson loop and never raises.

  What holds: for \<open>len(prange) < 4\<close> the function returns at once the four entries of
  \<^verbatim>\<open>np.empty(4)\<close>. The result is the same for every pseudo-inverse routine, every
  tolerance and every \<open>X, Y, Z, B\<close> (also those on which the loop would raise or never
  stop), so neither the loop nor the closures run, and it is a return, not an exception.
  The four entries are whatever the buffer held: they are not a fixed value.
\<close>

theorem solve_pos_underdetermined:
  assumes "length prange < 4"
  shows "solve_pos pinv C mem prange X Y Z B e = Some (Inr (np_empty4 mem))
         \<and> length (np_empty4 mem) = 4"
  using assms by (cases mem) (simp add: solve_pos_def)

theorem solve_pos_underdetermined_witness:
  "length [20200000, 20200000, 20200000 :: real] < 4
   \<and> solve_pos pinv_fail 299792458 (1, 2, 3, 4) [20200000, 20200000, 20200000]
        [20200000, 0, 0] [0, 20200000, 0] [0, 0, 20200000] [0, 0, 0] (1 / 1000)
      = Some (Inr [1, 2, 3, 4])"
  using solve_pos_underdetermined
    [of "[20200000, 20200000, 20200000]" pinv_fail 299792458 "(1, 2, 3, 4)"
        "[20200000, 0, 0]" "[0, 20200000, 0]" "[0, 0, 20200000]" "[0, 0, 0]" "1 / 1000"]
  by simp

text \<open>
  The same empty epoch gives different results for different buffer contents, and one
  of them, \<open>(100, 100, 100, 0)\<close>, is also the result of a solved epoch (the example
  under C9): the value does not mark the epoch as unsolvable.
\<close>

theorem solve_pos_sentinel_counterexample:
  "solve_pos pinv_fail 299792458 (1, 2, 3, 4) [] [] [] [] [] (1 / 1000) = Some (Inr [1, 2, 3, 4])
   \<and> solve_pos pinv_fail 299792458 (100, 100, 100, 0) [] [] [] [] [] (1 / 1000)
       = Some (Inr [100, 100, 100, 0])"
  by (simp add: solve_pos_def)

subsection \<open>C2: the iteration and its stopping rule\<close>

text \<open>
  C2. The claim: \<^verbatim>\<open>newton_raphson\<close> repeats \<open>delta = lam * pinv(df(x)) @ f(x)\<close>,
  \<open>x = x - delta\<close>, stops exactly when the sum of the \<open>|delta_i|\<close> falls below \<open>e\<close>,
  and returns the final state with the Euclidean norm of \<open>f\<close> there.

  What holds, for every \<open>f\<close>, \<open>df\<close>, \<open>x0\<close>, \<open>e\<close> and \<open>lam\<close> (the defaults
  \<open>e = 1/1000\<close>, \<open>lam = 1\<close> included): the function returns \<open>(xs, res)\<close> exactly when
  some number \<open>k\<close> of passes from \<open>(x0, ones)\<close> leads to \<open>(xs, dk)\<close> with
  \<open>sum |dk_i| \<le> e\<close>, every earlier pair had a sum above \<open>e\<close>, and \<open>res\<close> is the norm
  of \<open>f xs\<close>. The test is "not above \<open>e\<close>", so a step whose sum equals \<open>e\<close> stops
  the loop; and \<open>k = 0\<close> is possible, when the all-ones start already passes the test.
\<close>

theorem newton_raphson_characterisation:
  "newton_raphson f df pinv x0 e lam = Some (Inr (xs, res)) \<longleftrightarrow>
     (\<exists>k dk r. nr_iter f df pinv lam k (x0, ones_like x0) = Inr (xs, dk)
        \<and> sum_abs dk \<le> e
        \<and> (\<forall>j<k. \<forall>s. nr_iter f df pinv lam j (x0, ones_like x0) = Inr s \<longrightarrow> e < sum_abs (snd s))
        \<and> f xs = Inr r \<and> res = norm2 r)"
  (is "?lhs \<longleftrightarrow> ?rhs")
proof
  assume ?lhs
  then obtain dk where loop: "newton_loop f df pinv e lam x0 (ones_like x0) = Some (Inr (xs, dk))"
    unfolding newton_raphson_def by (blast dest: nr_finish_Inr)
  with \<open>?lhs\<close> have "nr_return f xs = Inr (xs, res)"
    by (simp add: newton_raphson_def nr_finish_return)
  then obtain r where r: "f xs = Inr r" "res = norm2 r"
    by (auto simp: nr_return_def ebind_eq_Inr)
  from newton_loop_to_iter_aux[OF loop] obtain k where
    "nr_iter f df pinv lam k (x0, ones_like x0) = Inr (xs, dk)" "sum_abs dk \<le> e"
    "\<forall>j<k. \<forall>s. nr_iter f df pinv lam j (x0, ones_like x0) = Inr s \<longrightarrow> e < sum_abs (snd s)"
    by blast
  with r show ?rhs by blast
next
  assume ?rhs
  then obtain k dk r where
    it: "nr_iter f df pinv lam k (x0, ones_like x0) = Inr (xs, dk)" and stop: "sum_abs dk \<le> e"
    and before: "\<forall>j<k. \<forall>s. nr_iter f df pinv lam j (x0, ones_like x0) = Inr s \<longrightarrow> e < sum_abs (snd s)"
    and r: "f xs = Inr r" "res = norm2 r"
    by blast
  from newton_loop_from_iter[OF it stop before]
  have "newton_loop f df pinv e lam x0 (ones_like x0) = Some (Inr (xs, dk))" .
  with r show ?lhs
    by (simp add: newton_raphson_def nr_finish_return nr_return_def ebind_Inr)
qed

text \<open>
  The satellite example with \<open>e = 1\<close>: one pass, a step of size \<open>1/2\<close>, and the exact
  solution.
\<close>

theorem newton_raphson_characterisation_witness:
  "newton_raphson
     (solve_pos_f [3 / 2, 3 / 2, 3 / 2, 3 / 2] [101, 100, 100, 99] [100, 101, 100, 100]
        [100, 100, 101, 100] [0, 0, 0, 0])
     (solve_pos_df [3 / 2, 3 / 2, 3 / 2, 3 / 2] [101, 100, 100, 99] [100, 101, 100, 100]
        [100, 100, 101, 100] [0, 0, 0, 0])
     pinv_sample [100, 100, 100, 0] 1 1
   = Some (Inr ([100, 100, 100, 1 / 2], 0))"
proof -
  let ?f = "solve_pos_f [3 / 2, 3 / 2, 3 / 2, 3 / 2] [101, 100, 100, 99] [100, 101, 100, 100]
        [100, 100, 101, 100] [0, 0, 0, 0]"
  let ?df = "solve_pos_df [3 / 2, 3 / 2, 3 / 2, 3 / 2] [101, 100, 100, 99] [100, 101, 100, 100]
        [100, 100, 101, 100] [0, 0, 0, 0]"
  have "nr_iter ?f ?df pinv_sample 1 (Suc 0) ([100, 100, 100, 0], ones_like [100, 100, 100, 0])
          = Inr ([100, 100, 100, 1 / 2], [0, 0, 0, - 1 / 2])
        \<and> sum_abs [0, 0, 0, - 1 / 2] \<le> 1
        \<and> (\<forall>j<Suc 0. \<forall>s. nr_iter ?f ?df pinv_sample 1 j
                 ([100, 100, 100, 0], ones_like [100, 100, 100, 0]) = Inr s \<longrightarrow> 1 < sum_abs (snd s))
        \<and> ?f [100, 100, 100, 1 / 2] = Inr [0, 0, 0, 0] \<and> (0 :: real) = norm2 [0, 0, 0, 0]"
    by (simp add: demo_step ebind_Inr sum_abs_def demo_f_fix norm2_zeros4 ones_like_def)
  then have "\<exists>k dk r. nr_iter ?f ?df pinv_sample 1 k ([100, 100, 100, 0], ones_like [100, 100, 100, 0])
          = Inr ([100, 100, 100, 1 / 2], dk)
        \<and> sum_abs dk \<le> 1
        \<and> (\<forall>j<k. \<forall>s. nr_iter ?f ?df pinv_sample 1 j
                 ([100, 100, 100, 0], ones_like [100, 100, 100, 0]) = Inr s \<longrightarrow> 1 < sum_abs (snd s))
        \<and> ?f [100, 100, 100, 1 / 2] = Inr r \<and> (0 :: real) = norm2 r"
    by blast
  then show ?thesis
    by (simp only: newton_raphson_characterisation)
qed

text \<open>
  With \<open>e = 1\<close> on the alternating example the first step is \<open>(-1, 0, 0, 0)\<close>. Its
  sum is 1, which is not below \<open>e\<close>, and the loop stops there all the same.
\<close>

theorem newton_raphson_stop_counterexample:
  "newton_loop cyc_f cyc_df pinv_row 1 1 [0, 0, 0, 0] (ones_like [0, 0, 0, 0])
     = Some (Inr ([1, 0, 0, 0], [- 1, 0, 0, 0]))
   \<and> \<not> sum_abs [- 1, 0, 0, 0] < 1
   \<and> newton_raphson cyc_f cyc_df pinv_row [0, 0, 0, 0] 1 1 = Some (Inr ([1, 0, 0, 0], 1))"
proof -
  have "newton_loop cyc_f cyc_df pinv_row 1 1 [0, 0, 0, 0] (ones_like [0, 0, 0, 0])
        = newton_loop cyc_f cyc_df pinv_row 1 1 [1, 0, 0, 0] [- 1, 0, 0, 0]"
    by (rule newton_loop_step) (simp_all add: sum_abs_ones_like cyc_step0)
  also have "\<dots> = Some (Inr ([1, 0, 0, 0], [- 1, 0, 0, 0]))"
    by (rule newton_loop_stop) (simp add: sum_abs_def)
  finally have loop: "newton_loop cyc_f cyc_df pinv_row 1 1 [0, 0, 0, 0] (ones_like [0, 0, 0, 0])
        = Some (Inr ([1, 0, 0, 0], [- 1, 0, 0, 0]))" .
  then have "newton_raphson cyc_f cyc_df pinv_row [0, 0, 0, 0] 1 1 = Some (Inr ([1, 0, 0, 0], 1))"
    by (simp add: newton_raphson_def nr_finish_return nr_return_def cyc_f_def ebind_Inr norm2_def)
  with loop show ?thesis by (simp add: sum_abs_def)
qed

subsection \<open>C3: the residual\<close>

text \<open>
  C3. For satellite arrays of one common length \<open>n\<close> and every state
  \<open>(x, y, z, cdt)\<close>, the closure \<^verbatim>\<open>f\<close> returns the \<open>n\<close> values
  \<open>prange[i] - (sqrt((x-X[i])\<^sup>2 + (y-Y[i])\<^sup>2 + (z-Z[i])\<^sup>2) + cdt - B[i])\<close>.
  The result is a function of the state and the five arrays alone.
\<close>

theorem solve_pos_f_formula:
  assumes "length X = length prange" and "length Y = length prange"
    and "length Z = length prange" and "length B = length prange"
  shows "solve_pos_f prange X Y Z B [x, y, z, cdt] =
           Inr (map (\<lambda>i. prange ! i
                          - (sqrt ((x - X ! i) ^ 2 + (y - Y ! i) ^ 2 + (z - Z ! i) ^ 2)
                             + cdt - B ! i))
                  [0..<length prange])"
  using assms
  by (simp add: solve_pos_f_def tilde_prange_same ebind_Inr delta_prange_same)

theorem solve_pos_f_formula_witness:
  "solve_pos_f [3 / 2, 3 / 2, 3 / 2, 3 / 2] [101, 100, 100, 99] [100, 101, 100, 100]
     [100, 100, 101, 100] [0, 0, 0, 0] [100, 100, 100, 0] = Inr [1 / 2, 1 / 2, 1 / 2, 1 / 2]"
  using solve_pos_f_formula
    [of "[101, 100, 100, 99]" "[3 / 2, 3 / 2, 3 / 2, 3 / 2]" "[100, 101, 100, 100]"
        "[100, 100, 101, 100]" "[0, 0, 0, 0]" 100 100 100 0]
  by (simp add: upt_conv_Cons)

subsection \<open>C4: the Jacobian\<close>

text \<open>
  C4. For satellite arrays of one common length \<open>n\<close> and every state
  \<open>(x, y, z, cdt)\<close>, the closure \<^verbatim>\<open>df\<close> returns the \<open>n \<times> 4\<close> matrix whose row
  \<open>i\<close> is \<open>(-(x-X[i])/range_i, -(y-Y[i])/range_i, -(z-Z[i])/range_i, -1)\<close>. It is
  computed from the state passed in at each call. The statement is for states at
  non-zero distance from every satellite: at \<open>range_i = 0\<close> the floating-point
  quotient is not a real number.
\<close>

theorem solve_pos_df_formula:
  assumes "length X = length prange" and "length Y = length prange"
    and "length Z = length prange" and "length B = length prange"
    and "\<forall>i<length prange. sqrt ((x - X ! i) ^ 2 + (y - Y ! i) ^ 2 + (z - Z ! i) ^ 2) \<noteq> 0"
  shows "solve_pos_df prange X Y Z B [x, y, z, cdt] =
           Inr (map (\<lambda>i. [- (x - X ! i) / sqrt ((x - X ! i) ^ 2 + (y - Y ! i) ^ 2 + (z - Z ! i) ^ 2),
                           - (y - Y ! i) / sqrt ((x - X ! i) ^ 2 + (y - Y ! i) ^ 2 + (z - Z ! i) ^ 2),
                           - (z - Z ! i) / sqrt ((x - X ! i) ^ 2 + (y - Y ! i) ^ 2 + (z - Z ! i) ^ 2),
                           - 1])
                  [0..<length prange])"
  using assms(1-4)
  by (simp add: solve_pos_df_def tilde_prange_same ebind_Inr delta_prange_same df_column_same)

theorem solve_pos_df_formula_witness:
  "solve_pos_df [3 / 2, 3 / 2, 3 / 2, 3 / 2] [101, 100, 100, 99] [100, 101, 100, 100]
     [100, 100, 101, 100] [0, 0, 0, 0] [100, 100, 100, 0]
   = Inr [[1, 0, 0, - 1], [0, 1, 0, - 1], [0, 0, 1, - 1], [- 1, 0, 0, - 1]]"
  using solve_pos_df_formula
    [of "[101, 100, 100, 99]" "[3 / 2, 3 / 2, 3 / 2, 3 / 2]" "[100, 101, 100, 100]"
        "[100, 100, 101, 100]" "[0, 0, 0, 0]" 100 100 100 0]
  by (simp add: upt_conv_Cons All_less_Suc numeral_eq_Suc)

subsection \<open>C5: the initial step size\<close>

text \<open>
  C5. The claim: the step size set before the loop exceeds every tolerance \<open>e\<close>, so
  the loop always makes at least one pass.

  What holds: the start value is an array of ones, whose sum is the number of entries
  of \<open>x0\<close> (4 for the state vector). For every \<open>e\<close> below that number the loop makes
  a first pass: the call yields what that pass raises or, after it, what the loop and
  the return statement yield from the new pair.
\<close>

theorem newton_raphson_first_pass:
  assumes "e < real (length x0)"
  shows "e < sum_abs (ones_like x0)
         \<and> newton_raphson f df pinv x0 e lam =
             (case nr_step f df pinv lam x0 of
                Inl err \<Rightarrow> Some (Inl err)
              | Inr s \<Rightarrow> nr_finish f (newton_loop f df pinv e lam (fst s) (snd s)))"
proof -
  from assms have gt: "e < sum_abs (ones_like x0)" by (simp add: sum_abs_ones_like)
  show ?thesis
  proof (cases "nr_step f df pinv lam x0")
    case (Inl err)
    from newton_loop_raise[OF gt Inl] Inl gt show ?thesis
      by (simp add: newton_raphson_def nr_finish_raise)
  next
    case (Inr s)
    then have "nr_step f df pinv lam x0 = Inr (fst s, snd s)" by simp
    from newton_loop_step[OF gt this] Inr gt show ?thesis
      by (simp add: newton_raphson_def)
  qed
qed

theorem newton_raphson_first_pass_witness:
  "(1 :: real) < real (length [100, 100, 100, 0 :: real])
   \<and> 1 < sum_abs (ones_like [100, 100, 100, 0])
   \<and> newton_raphson
       (solve_pos_f [3 / 2, 3 / 2, 3 / 2, 3 / 2] [101, 100, 100, 99] [100, 101, 100, 100]
          [100, 100, 101, 100] [0, 0, 0, 0])
       (solve_pos_df [3 / 2, 3 / 2, 3 / 2, 3 / 2] [101, 100, 100, 99] [100, 101, 100, 100]
          [100, 100, 101, 100] [0, 0, 0, 0])
       pinv_sample [100, 100, 100, 0] 1 1
     = nr_finish
         (solve_pos_f [3 / 2, 3 / 2, 3 / 2, 3 / 2] [101, 100, 100, 99] [100, 101, 100, 100]
            [100, 100, 101, 100] [0, 0, 0, 0])
         (newton_loop
            (solve_pos_f [3 / 2, 3 / 2, 3 / 2, 3 / 2] [101, 100, 100, 99] [100, 101, 100, 100]
               [100, 100, 101, 100] [0, 0, 0, 0])
            (solve_pos_df [3 / 2, 3 / 2, 3 / 2, 3 / 2] [101, 100, 100, 99] [100, 101, 100, 100]
               [100, 100, 101, 100] [0, 0, 0, 0])
            pinv_sample 1 1 [100, 100, 100, 1 / 2] [0, 0, 0, - 1 / 2])"
  using newton_raphson_first_pass
    [of 1 "[100, 100, 100, 0]"
        "solve_pos_f [3 / 2, 3 / 2, 3 / 2, 3 / 2] [101, 100, 100, 99] [100, 101, 100, 100]
          [100, 100, 101, 100] [0, 0, 0, 0]"
        "solve_pos_df [3 / 2, 3 / 2, 3 / 2, 3 / 2] [101, 100, 100, 99] [100, 101, 100, 100]
          [100, 100, 101, 100] [0, 0, 0, 0]"
        pinv_sample 1]
  by (simp add: demo_step)

text \<open>
  With \<open>e = 4\<close> the start value does not exceed \<open>e\<close>, and the call returns the
  initial guess without a pass: the pseudo-inverse routine here raises whenever it is
  called.
\<close>

theorem newton_raphson_sentinel_counterexample:
  "\<not> 4 < sum_abs (ones_like [100, 100, 100, 0])
   \<and> newton_raphson
       (solve_pos_f [3 / 2, 3 / 2, 3 / 2, 3 / 2] [101, 100, 100, 99] [100, 101, 100, 100]
          [100, 100, 101, 100] [0, 0, 0, 0])
       (solve_pos_df [3 / 2, 3 / 2, 3 / 2, 3 / 2] [101, 100, 100, 99] [100, 101, 100, 100]
          [100, 100, 101, 100] [0, 0, 0, 0])
       pinv_fail [100, 100, 100, 0] 4 1
     = Some (Inr ([100, 100, 100, 0], 1))"
  by (simp add: sum_abs_ones_like newton_raphson_def newton_loop_stop nr_finish_return
      nr_return_def demo_f_start ebind_Inr norm2_halves4)

subsection \<open>C6: the clock-bias rescaling\<close>

text \<open>
  C6. For \<open>n \<ge> 4\<close>, when the solver returns the state \<open>x_fix\<close>, \<^verbatim>\<open>_solve_pos\<close>
  returns its first three entries unchanged and the fourth multiplied by
  \<open>10\<^sup>6 / C\<close>.
\<close>

theorem solve_pos_rescales_clock_only:
  assumes "4 \<le> length prange"
    and "newton_raphson (solve_pos_f prange X Y Z B) (solve_pos_df prange X Y Z B)
           pinv [100, 100, 100, 0] e 1 = Some (Inr (x_fix, res_err))"
  shows "length x_fix = 4
         \<and> solve_pos pinv C mem prange X Y Z B e =
             Some (Inr [x_fix ! 0, x_fix ! 1, x_fix ! 2, x_fix ! 3 * 1000000 / C])"
proof -
  from assms(2) have "length x_fix = length [100, 100, 100, 0 :: real]"
    by (rule newton_raphson_length) simp
  then have len: "length x_fix = 4" by simp
  then obtain x y z cdt where x_fix: "x_fix = [x, y, z, cdt]" by (rule length4E)
  from assms have "solve_pos pinv C mem prange X Y Z B e = Some (rescale_last C x_fix)"
    by (simp add: solve_pos_def)
  with x_fix len show ?thesis by (simp add: rescale_last4)
qed

theorem solve_pos_rescales_clock_only_witness:
  "4 \<le> length [3 / 2, 3 / 2, 3 / 2, 3 / 2 :: real]
   \<and> solve_pos pinv_sample 299792458 (0, 0, 0, 0) [3 / 2, 3 / 2, 3 / 2, 3 / 2]
       [101, 100, 100, 99] [100, 101, 100, 100] [100, 100, 101, 100] [0, 0, 0, 0] 1
     = Some (Inr [100, 100, 100, (1 / 2) * 1000000 / 299792458])"
proof -
  have n: "4 \<le> length [3 / 2, 3 / 2, 3 / 2, 3 / 2 :: real]" by simp
  from solve_pos_rescales_clock_only[OF n demo_newton_raphson, of 299792458 "(0, 0, 0, 0)"]
  show ?thesis by simp
qed

subsection \<open>C7: zero damping\<close>

text \<open>
  C7. The claim: with \<open>lam = 0\<close>, for every tolerance \<open>e\<close>, the call returns the
  initial guess and the norm of \<open>f x0\<close>, provided \<open>f\<close> and \<open>df\<close> evaluate at \<open>x0\<close>.

  What holds: this is so for \<open>e \<ge> 0\<close>, when \<open>f x0\<close>, \<open>df x0\<close> and the product
  \<open>pinv(df(x0)) @ f(x0)\<close> evaluate without error, the product has as many entries
  as \<open>x0\<close> or a single one, and the product and the norm stay in the range of
  doubles. Then the step is zero, the subtraction gives \<open>x0\<close> back, and the zero
  step passes the test.
\<close>

theorem newton_raphson_zero_damping:
  assumes "0 \<le> e"
    and "df x0 = Inr J" and "pinv J = Inr P" and "f x0 = Inr r" and "matvec P r = Inr v"
    and "length v = length x0 \<or> length v = 1"
    and "product_in_double_range P r" and "norm_in_double_range r"
  shows "newton_raphson f df pinv x0 e 0 = Some (Inr (x0, norm2 r))"
proof -
  have stop: "newton_loop f df pinv e 0 x0 (replicate (length v) 0)
              = Some (Inr (x0, replicate (length v) 0))"
    using assms(1) by (intro newton_loop_stop) (simp add: sum_abs_zeros)
  have "\<exists>d. newton_loop f df pinv e 0 x0 (ones_like x0) = Some (Inr (x0, d))"
  proof (cases "e < sum_abs (ones_like x0)")
    case True
    have "nr_step f df pinv 0 x0 = Inr (x0, replicate (length v) 0)"
      using assms(2-6) by (rule zero_step)
    from newton_loop_step[OF True this] stop show ?thesis by simp
  next
    case False
    then show ?thesis by (simp add: newton_loop_stop)
  qed
  then show ?thesis
    using assms(4) by (auto simp: newton_raphson_def nr_finish_return nr_return_def ebind_Inr)
qed

theorem newton_raphson_zero_damping_witness:
  "newton_raphson
     (solve_pos_f [3 / 2, 3 / 2, 3 / 2, 3 / 2] [101, 100, 100, 99] [100, 101, 100, 100]
        [100, 100, 101, 100] [0, 0, 0, 0])
     (solve_pos_df [3 / 2, 3 / 2, 3 / 2, 3 / 2] [101, 100, 100, 99] [100, 101, 100, 100]
        [100, 100, 101, 100] [0, 0, 0, 0])
     pinv_sample [100, 100, 100, 0] (1 / 1000) 0
   = Some (Inr ([100, 100, 100, 0], 1))"
proof -
  have e: "(0 :: real) \<le> 1 / 1000" by simp
  have P: "pinv_sample [[1, 0, 0, - 1], [0, 1, 0, - 1], [0, 0, 1, - 1], [- 1, 0, 0, - 1]]
           = Inr [[1 / 2, 0, 0, - 1 / 2], [- 1 / 2, 1, 0, - 1 / 2],
                  [- 1 / 2, 0, 1, - 1 / 2], [- 1 / 2, 0, 0, - 1 / 2]]"
    by (simp add: pinv_sample_def)
  have v: "matvec [[1 / 2, 0, 0, - 1 / 2], [- 1 / 2, 1, 0, - 1 / 2],
                   [- 1 / 2, 0, 1, - 1 / 2], [- 1 / 2, 0, 0, - 1 / 2]]
             [1 / 2, 1 / 2, 1 / 2, 1 / 2] = Inr [0, 0, 0, - 1 / 2]"
    by (simp add: matvec_def)
  have l: "length [0, 0, 0, - 1 / 2 :: real] = length [100, 100, 100, 0 :: real]
           \<or> length [0, 0, 0, - 1 / 2 :: real] = 1" by simp
  have rng: "product_in_double_range
               [[1 / 2, 0, 0, - 1 / 2], [- 1 / 2, 1, 0, - 1 / 2],
                [- 1 / 2, 0, 1, - 1 / 2], [- 1 / 2, 0, 0, - 1 / 2]]
               [1 / 2, 1 / 2, 1 / 2, 1 / 2]"
    by (simp add: product_in_double_range_def)
  have nrm: "norm_in_double_range [1 / 2, 1 / 2, 1 / 2, 1 / 2]"
    by (simp add: norm_in_double_range_def power2_eq_square)
  from e demo_df_start P demo_f_start v l rng nrm
  have "newton_raphson
     (solve_pos_f [3 / 2, 3 / 2, 3 / 2, 3 / 2] [101, 100, 100, 99] [100, 101, 100, 100]
        [100, 100, 101, 100] [0, 0, 0, 0])
     (solve_pos_df [3 / 2, 3 / 2, 3 / 2, 3 / 2] [101, 100, 100, 99] [100, 101, 100, 100]
        [100, 100, 101, 100] [0, 0, 0, 0])
     pinv_sample [100, 100, 100, 0] (1 / 1000) 0
   = Some (Inr ([100, 100, 100, 0], norm2 [1 / 2, 1 / 2, 1 / 2, 1 / 2]))"
    by (rule newton_raphson_zero_damping)
  then show ?thesis by (simp only: norm2_halves4)
qed

text \<open>
  Three runs with \<open>lam = 0\<close> in which \<open>f\<close> and \<open>df\<close> evaluate at \<open>x0\<close>, and the
  call does not return \<open>x0\<close>.
  \<^item> Tolerance \<open>-1\<close> on the satellite example: the zero step never passes the test,
    and the call does not return.
  \<^item> A residual with one entry beside the \<open>4 \<times> 4\<close> Jacobian of the satellite
    example: the product raises ValueError.
  \<^item> The alternating example from the one-entry state \<open>(0)\<close>: the product has four
    entries, the subtraction broadcasts, and the state returned is
    \<open>(0, 0, 0, 0)\<close>.
\<close>

theorem newton_raphson_zero_damping_counterexample:
  "newton_raphson
     (solve_pos_f [3 / 2, 3 / 2, 3 / 2, 3 / 2] [101, 100, 100, 99] [100, 101, 100, 100]
        [100, 100, 101, 100] [0, 0, 0, 0])
     (solve_pos_df [3 / 2, 3 / 2, 3 / 2, 3 / 2] [101, 100, 100, 99] [100, 101, 100, 100]
        [100, 100, 101, 100] [0, 0, 0, 0])
     pinv_sample [100, 100, 100, 0] (- 1) 0
   = None
   \<and> cyc_f [100, 100, 100, 0] = Inr [999802]
   \<and> newton_raphson cyc_f
       (solve_pos_df [3 / 2, 3 / 2, 3 / 2, 3 / 2] [101, 100, 100, 99] [100, 101, 100, 100]
          [100, 100, 101, 100] [0, 0, 0, 0])
       pinv_sample [100, 100, 100, 0] (1 / 1000) 0
     = Some (Inl ValueError)
   \<and> cyc_f [0] = Inr [2] \<and> cyc_df [0] = Inr [[- 2, 0, 0, 0]]
   \<and> newton_raphson cyc_f cyc_df pinv_row [0] (1 / 1000) 0 = Some (Inr ([0, 0, 0, 0], 2))"
  by (simp add: zero_damping_negative_tolerance zero_damping_product_raises
      zero_damping_state_reshaped cyc_f_def cyc_df_def)

subsection \<open>C8: no bound on the number of passes\<close>

text \<open>
  C8. There are \<open>f\<close>, \<open>df\<close> and \<open>x0\<close> on which \<^verbatim>\<open>newton_raphson\<close> never returns:
  on the alternating example, with the default tolerance and damping, every step has
  size 1.
\<close>

theorem newton_raphson_no_iteration_cap:
  "newton_raphson cyc_f cyc_df pinv_row [0, 0, 0, 0] (1 / 1000) 1 = None"
proof -
  define I :: "vec \<Rightarrow> vec \<Rightarrow> bool" where
    "I x d \<longleftrightarrow> (x = [0, 0, 0, 0] \<or> x = [1, 0, 0, 0]) \<and> 1 / 1000 < sum_abs d" for x d
  have "newton_loop cyc_f cyc_df pinv_row (1 / 1000) 1 [0, 0, 0, 0] (ones_like [0, 0, 0, 0]) = None"
  proof (rule newton_loop_diverges[where I = I])
    show "I [0, 0, 0, 0] (ones_like [0, 0, 0, 0])"
      by (simp add: I_def sum_abs_ones_like)
  next
    fix x d
    assume "I x d"
    then have gt: "1 / 1000 < sum_abs d" and x: "x = [0, 0, 0, 0] \<or> x = [1, 0, 0, 0]"
      by (simp_all add: I_def)
    from x have "\<exists>s. nr_step cyc_f cyc_df pinv_row 1 x = Inr s \<and> I (fst s) (snd s)"
    proof
      assume "x = [0, 0, 0, 0]"
      then show ?thesis by (simp add: cyc_step0 I_def sum_abs_def)
    next
      assume "x = [1, 0, 0, 0]"
      then show ?thesis by (simp add: cyc_step1 I_def sum_abs_def)
    qed
    with gt show "1 / 1000 < sum_abs d
        \<and> (\<exists>s. nr_step cyc_f cyc_df pinv_row 1 x = Inr s \<and> I (fst s) (snd s))" by simp
  qed
  then show ?thesis by (simp add: newton_raphson_def nr_finish_None)
qed

subsection \<open>C9: the initial guess\<close>

text \<open>
  C9. For \<open>n \<ge> 4\<close>, \<^verbatim>\<open>_solve_pos\<close> is the loop started at the state
  \<open>(100, 100, 100, 0)\<close> with step \<open>(1, 1, 1, 1)\<close>, followed by the return statement
  and the rescaling: the start does not depend on the measurements.
\<close>

theorem solve_pos_initial_guess:
  assumes "4 \<le> length prange"
  shows "solve_pos pinv C mem prange X Y Z B e =
           (case nr_finish (solve_pos_f prange X Y Z B)
                   (newton_loop (solve_pos_f prange X Y Z B) (solve_pos_df prange X Y Z B)
                      pinv e 1 [100, 100, 100, 0] [1, 1, 1, 1]) of
              None \<Rightarrow> None
            | Some (Inl err) \<Rightarrow> Some (Inl err)
            | Some (Inr r) \<Rightarrow> Some (rescale_last C (fst r)))"
  using assms by (simp add: solve_pos_def newton_raphson_def ones_like_def numeral_eq_Suc)

theorem solve_pos_initial_guess_witness:
  "4 \<le> length [3 / 2, 3 / 2, 3 / 2, 3 / 2 :: real]
   \<and> solve_pos pinv_sample 299792458 (0, 0, 0, 0) [3 / 2, 3 / 2, 3 / 2, 3 / 2]
       [101, 100, 100, 99] [100, 101, 100, 100] [100, 100, 101, 100] [0, 0, 0, 0] 4
     = Some (Inr [100, 100, 100, 0])"
  using solve_pos_initial_guess
    [of "[3 / 2, 3 / 2, 3 / 2, 3 / 2]" pinv_sample 299792458 "(0, 0, 0, 0)"
        "[101, 100, 100, 99]" "[100, 101, 100, 100]" "[100, 100, 101, 100]" "[0, 0, 0, 0]" 4]
  by (simp add: newton_loop_stop sum_abs_def nr_finish_return nr_return_def demo_f_start
      ebind_Inr rescale_last4)

subsection \<open>C10: the shape of the result\<close>

text \<open>
  C10. Whatever the lengths of the five arrays and the tolerance, a value that
  \<^verbatim>\<open>_solve_pos\<close> returns has exactly four entries.
\<close>

theorem solve_pos_result_length:
  assumes "solve_pos pinv C mem prange X Y Z B e = Some (Inr v)"
  shows "length v = 4"
proof (cases "length prange < 4")
  case True
  with assms have "v = np_empty4 mem" by (simp add: solve_pos_def)
  then show ?thesis by (cases mem) simp
next
  case False
  let ?nr = "newton_raphson (solve_pos_f prange X Y Z B) (solve_pos_df prange X Y Z B)
               pinv [100, 100, 100, 0] e 1"
  from assms False obtain r where nr: "?nr = Some (Inr r)" and v: "rescale_last C (fst r) = Inr v"
    by (auto simp: solve_pos_def split: option.splits sum.splits)
  from nr have "?nr = Some (Inr (fst r, snd r))" by simp
  then have "length (fst r) = length [100, 100, 100, 0 :: real]"
    by (rule newton_raphson_length) simp
  then have "length (fst r) = 4" by simp
  then obtain a b c d where "fst r = [a, b, c, d]" by (rule length4E)
  with v have "v = [a, b, c, d * 1000000 / C]" by (simp add: rescale_last4)
  then show ?thesis by simp
qed

theorem solve_pos_result_length_witness:
  "solve_pos pinv_sample 299792458 (0, 0, 0, 0) [3 / 2, 3 / 2, 3 / 2, 3 / 2]
       [101, 100, 100, 99] [100, 101, 100, 100] [100, 100, 101, 100] [0, 0, 0, 0] 1
     = Some (Inr [100, 100, 100, (1 / 2) * 1000000 / 299792458])
   \<and> length [100, 100, 100, (1 / 2) * 1000000 / 299792458 :: real] = 4"
  using solve_pos_result_length[OF demo_solve_pos[of "(0, 0, 0, 0)"]] demo_solve_pos[of "(0, 0, 0, 0)"]
  by simp

end
